theory Spec2Isabelle
  imports Main
begin

section \<open>Python strings\<close>

text \<open>
  \<^verbatim>\<open>s.split(sep)\<close> for a one-character separator: every occurrence of the separator
  ends a segment, so the result has one segment more than \<open>s\<close> has separators and is
  never empty (\<^verbatim>\<open>"".split("/") == [""]\<close>).
\<close>

fun str_split :: "char \<Rightarrow> string \<Rightarrow> string list" where
  "str_split sep [] = [[]]"
| "str_split sep (c # cs) =
     (if c = sep then [] # str_split sep cs
      else (case str_split sep cs of
              [] \<Rightarrow> [[c]]
            | p # ps \<Rightarrow> (c # p) # ps))"

text \<open>\<^verbatim>\<open>sep.join(parts)\<close>.\<close>

fun str_join :: "string \<Rightarrow> string list \<Rightarrow> string" where
  "str_join sep [] = []"
| "str_join sep [p] = p"
| "str_join sep (p # q # ps) = p @ sep @ str_join sep (q # ps)"

text \<open>\<^verbatim>\<open>any(parts)\<close> on a list of strings: some string is not empty.\<close>

definition any_part :: "string list \<Rightarrow> bool" where
  "any_part parts = list_ex (\<lambda>p. p \<noteq> []) parts"

text \<open>
  A \<^verbatim>\<open>Char\<close> field reads as a string or as \<^verbatim>\<open>False\<close> (here \<open>None\<close>).
  \<open>truthy\<close> is Python's truth value of such a value, \<open>or_empty\<close> is \<^verbatim>\<open>value or ""\<close>,
  \<open>py_str\<close> is what \<^verbatim>\<open>"%s" % value\<close> prints.
\<close>

definition truthy :: "string option \<Rightarrow> bool" where
  "truthy v = (case v of None \<Rightarrow> False | Some s \<Rightarrow> s \<noteq> [])"

definition or_empty :: "string option \<Rightarrow> string" where
  "or_empty v = (case v of None \<Rightarrow> [] | Some s \<Rightarrow> s)"

definition py_str :: "string option \<Rightarrow> string" where
  "py_str v = (case v of None \<Rightarrow> ''False'' | Some s \<Rightarrow> s)"

section \<open>The metadata catalogue and the export lines\<close>

text \<open>
  \<^verbatim>\<open>ir.model\<close>: one record per model, with its technical name.
  \<^verbatim>\<open>ir.model.fields\<close>: one record per field, with its technical name, the model
  that owns it, its type tag and, for a relational field, the technical name of the target
  model (\<^verbatim>\<open>False\<close>, here \<open>None\<close>, otherwise).
\<close>

record ir_model =
  mdl_id :: nat
  model :: string

record ir_model_fields =
  fld_id :: nat
  fld_name :: string
  model_id :: nat
  ttype :: string
  relation :: "string option"

text \<open>
  \<^verbatim>\<open>ir.exports.line\<close>. A \<^verbatim>\<open>Many2one\<close> holds at most one record: \<open>None\<close> is the
  empty record set. \<open>model1_id\<close> is the related field \<^verbatim>\<open>export_id.model_id\<close>;
  \<^verbatim>\<open>model2_id\<close> to \<^verbatim>\<open>model4_id\<close> and \<^verbatim>\<open>label\<close> are computed and not stored:
  they are the functions \<open>compute_model2_id\<close> ... and \<open>compute_label\<close> below.
\<close>

record ir_exports_line =
  line_id :: nat
  export_id :: "nat option"
  name :: "string option"
  field1_id :: "ir_model_fields option"
  field2_id :: "ir_model_fields option"
  field3_id :: "ir_model_fields option"
  field4_id :: "ir_model_fields option"
  model1_id :: "ir_model option"
  sequence :: int

text \<open>
  The environment \<^verbatim>\<open>self.env\<close>: the two metadata tables, the table of export lines,
  and the registry of live models, \<^verbatim>\<open>env[model]._fields[name].get_description(env)\<close>,
  as three nested dictionaries (a missing key is Python's \<^verbatim>\<open>KeyError\<close>).
\<close>

record environment =
  ir_model_table :: "ir_model list"
  ir_model_fields_table :: "ir_model_fields list"
  ir_exports_line_table :: "ir_exports_line list"
  registry :: "string \<rightharpoonup> (string \<rightharpoonup> (string \<rightharpoonup> string))"

text \<open>
  The errors the module raises: each constructor is one \<^verbatim>\<open>raise\<close> of the source, all
  of class \<^verbatim>\<open>ValidationError\<close>, and \<open>message\<close> is the text it carries.
  \<open>MissingError\<close> is the framework's, for a record that is not in its table.
\<close>

datatype error =
    DepthExceeded string
  | FieldNotFound string string
  | FieldDoesNotExist string
  | FieldAlreadyExists string
  | MissingError

fun message :: "error \<Rightarrow> string" where
  "message (DepthExceeded n) = ''It's not allowed to have more than 4 levels depth: '' @ n"
| "message (FieldNotFound n m) = ''Field '' @ [CHR 0x27] @ n @ [CHR 0x27] @ '' not found in model '' @ [CHR 0x27] @ m @ [CHR 0x27]"
| "message (FieldDoesNotExist n) = ''Field '' @ [CHR 0x27] @ n @ [CHR 0x27] @ '' does not exist''"
| "message (FieldAlreadyExists n) = ''Field '' @ [CHR 0x27] @ n @ [CHR 0x27] @ '' already exists''"
| "message MissingError = ''Record does not exist or has been deleted.''"

text \<open>
  A method that mutates records either returns, leaving the environment \<open>Ok env\<close>, or
  raises, leaving the environment as it was when the error was raised.
\<close>

datatype result = Ok environment | Raise error environment

section \<open>Searches\<close>

text \<open>
  \<^verbatim>\<open>IrModel.search([("model", "=", rel)])\<close> under \<^verbatim>\<open>sudo()\<close>: no access rule
  filters the table. The technical name is a unique key of \<^verbatim>\<open>ir.model\<close>, so the
  search yields at most one record. The column is required, so \<^verbatim>\<open>False\<close> matches
  no record.
\<close>

definition search_model :: "environment \<Rightarrow> string option \<Rightarrow> ir_model option" where
  "search_model env rel = find (\<lambda>m. Some (model m) = rel) (ir_model_table env)"

text \<open>
  \<^verbatim>\<open>env["ir.model.fields"].sudo().search([("name", "=", n), ("model_id", "=", mid)])\<close>;
  (model, name) is a unique key of the table and \<^verbatim>\<open>model_id\<close> is required.
\<close>

definition search_fields ::
  "environment \<Rightarrow> string \<Rightarrow> nat option \<Rightarrow> ir_model_fields option" where
  "search_fields env n mid =
     find (\<lambda>f. fld_name f = n \<and> Some (model_id f) = mid) (ir_model_fields_table env)"

text \<open>
  \<^verbatim>\<open>one.search_count([("export_id", "=", eid), ("name", "=", n)])\<close>: the table holds the
  pending writes, the line itself included.
\<close>

definition search_count :: "environment \<Rightarrow> nat option \<Rightarrow> string option \<Rightarrow> nat" where
  "search_count env eid n =
     length (filter (\<lambda>l. export_id l = eid \<and> name l = n) (ir_exports_line_table env))"

text \<open>Reading and writing one line of the table by its id.\<close>

definition browse :: "environment \<Rightarrow> nat \<Rightarrow> ir_exports_line option" where
  "browse env i = find (\<lambda>l. line_id l = i) (ir_exports_line_table env)"

definition write_line ::
  "environment \<Rightarrow> nat \<Rightarrow> (ir_exports_line \<Rightarrow> ir_exports_line) \<Rightarrow> environment" where
  "write_line env i upd =
     env\<lparr>ir_exports_line_table :=
           map (\<lambda>l. if line_id l = i then upd l else l) (ir_exports_line_table env)\<rparr>"

section \<open>The helpers \<^verbatim>\<open>field_n\<close> and \<^verbatim>\<open>model_n\<close>\<close>

text \<open>
  \<^verbatim>\<open>one.field_n(n)\<close> reads \<^verbatim>\<open>one["field%d_id" % n]\<close>. The module calls it with
  \<open>n\<close> from 1 to 4 only; another \<open>n\<close> is a key error in Python and reads as unset here.
\<close>

definition field_n :: "ir_exports_line \<Rightarrow> nat \<Rightarrow> ir_model_fields option" where
  "field_n one n =
     (if n = 1 then field1_id one
      else if n = 2 then field2_id one
      else if n = 3 then field3_id one
      else if n = 4 then field4_id one
      else None)"

text \<open>\<^verbatim>\<open>one[one.field_n(n, True)] = v\<close> on the record.\<close>

definition set_field_n ::
  "nat \<Rightarrow> ir_model_fields option \<Rightarrow> ir_exports_line \<Rightarrow> ir_exports_line" where
  "set_field_n n v one =
     (if n = 1 then one\<lparr>field1_id := v\<rparr>
      else if n = 2 then one\<lparr>field2_id := v\<rparr>
      else if n = 3 then one\<lparr>field3_id := v\<rparr>
      else if n = 4 then one\<lparr>field4_id := v\<rparr>
      else one)"

section \<open>Dependent models\<close>

text \<open>
  \<^verbatim>\<open>one.model2_id = (one.field1_id.ttype and "2" in one.field1_id.ttype
                    and IrModel.search([("model", "=", one.field1_id.relation)]))\<close>
  On an unset \<^verbatim>\<open>field1_id\<close> the type tag reads \<^verbatim>\<open>False\<close>.
\<close>

definition compute_model2_id :: "environment \<Rightarrow> ir_exports_line \<Rightarrow> ir_model option" where
  "compute_model2_id env one =
     (case field1_id one of
        None \<Rightarrow> None
      | Some f \<Rightarrow>
          if ttype f \<noteq> [] \<and> CHR ''2'' \<in> set (ttype f)
          then search_model env (relation f) else None)"

definition compute_model3_id :: "environment \<Rightarrow> ir_exports_line \<Rightarrow> ir_model option" where
  "compute_model3_id env one =
     (case field2_id one of
        None \<Rightarrow> None
      | Some f \<Rightarrow>
          if ttype f \<noteq> [] \<and> CHR ''2'' \<in> set (ttype f)
          then search_model env (relation f) else None)"

definition compute_model4_id :: "environment \<Rightarrow> ir_exports_line \<Rightarrow> ir_model option" where
  "compute_model4_id env one =
     (case field3_id one of
        None \<Rightarrow> None
      | Some f \<Rightarrow>
          if ttype f \<noteq> [] \<and> CHR ''2'' \<in> set (ttype f)
          then search_model env (relation f) else None)"

text \<open>\<^verbatim>\<open>one.model_n(n)\<close> reads \<^verbatim>\<open>one["model%d_id" % n]\<close>.\<close>

definition model_n :: "environment \<Rightarrow> ir_exports_line \<Rightarrow> nat \<Rightarrow> ir_model option" where
  "model_n env one n =
     (if n = 1 then model1_id one
      else if n = 2 then compute_model2_id env one
      else if n = 3 then compute_model3_id env one
      else if n = 4 then compute_model4_id env one
      else None)"

section \<open>Forward derivation of the name\<close>

text \<open>
  \<^verbatim>\<open>name = "/".join(one.field_n(num).name for num in range(1, 5) if one.field_n(num))
  if name != one.name: one.name = name\<close>
\<close>

definition compute_name :: "ir_exports_line \<Rightarrow> ir_exports_line" where
  "compute_name one =
     (let nm = str_join ''/''
                 (map (\<lambda>num. fld_name (the (field_n one num)))
                      (filter (\<lambda>num. field_n one num \<noteq> None) [1, 2, 3, 4]))
      in if Some nm \<noteq> name one then one\<lparr>name := Some nm\<rparr> else one)"

section \<open>The label\<close>

text \<open>
  \<^verbatim>\<open>one.env[model.model]._fields[fname].get_description(one.env)["string"]\<close>; \<open>None\<close>
  is \<^verbatim>\<open>KeyError\<close>. On an unset model \<^verbatim>\<open>model.model\<close> is \<^verbatim>\<open>False\<close>, which is no
  key of the registry.
\<close>

definition description_string ::
  "environment \<Rightarrow> ir_model option \<Rightarrow> string \<Rightarrow> string option" where
  "description_string env mdl fname =
     (case mdl of
        None \<Rightarrow> None
      | Some m \<Rightarrow>
          (case registry env (model m) of
             None \<Rightarrow> None
           | Some flds \<Rightarrow>
               (case flds fname of
                  None \<Rightarrow> None
                | Some description \<Rightarrow> description ''string'')))"

text \<open>
  The loop of \<^verbatim>\<open>_compute_label\<close> over the levels still to visit, with the parts
  collected so far: it breaks at the first unset field, and on \<^verbatim>\<open>KeyError\<close> it empties
  the parts and breaks.
\<close>

fun label_parts ::
  "environment \<Rightarrow> ir_exports_line \<Rightarrow> nat list \<Rightarrow> string list \<Rightarrow> string list" where
  "label_parts env one [] parts = parts"
| "label_parts env one (num # nums) parts =
     (case field_n one num of
        None \<Rightarrow> parts
      | Some field \<Rightarrow>
          (case description_string env (model_n env one num) (fld_name field) of
             None \<Rightarrow> []
           | Some s \<Rightarrow> label_parts env one nums (parts @ [s])))"

text \<open>
  \<^verbatim>\<open>one.label = ("{} ({})".format("/".join(parts), one.name)
               if parts and one.name else False)\<close>
\<close>

definition compute_label :: "environment \<Rightarrow> ir_exports_line \<Rightarrow> string option" where
  "compute_label env one =
     (let parts = label_parts env one [1, 2, 3, 4] []
      in if parts \<noteq> [] \<and> truthy (name one)
         then Some (str_join ''/'' parts @ '' ('' @ or_empty (name one) @ '')'')
         else None)"

section \<open>Field resolution\<close>

text \<open>
  \<^verbatim>\<open>_get_field_id(model, name)\<close>: \<^verbatim>\<open>model.id\<close> and \<^verbatim>\<open>model.model\<close> of an unset
  model read \<^verbatim>\<open>False\<close>.
\<close>

definition get_field_id ::
  "environment \<Rightarrow> ir_model option \<Rightarrow> string \<Rightarrow> error + ir_model_fields" where
  "get_field_id env mdl name0 =
     (let nm = (if name0 = ''.id'' then ''id'' else name0)
      in case search_fields env nm (map_option mdl_id mdl) of
           None \<Rightarrow> Inl (FieldNotFound nm (py_str (map_option model mdl)))
         | Some field \<Rightarrow> Inr field)"

section \<open>The constraint\<close>

text \<open>
  The loop of \<^verbatim>\<open>_check_name\<close> over the records of \<^verbatim>\<open>self\<close>. \<^verbatim>\<open>one.label\<close> is
  not stored: reading it computes it.
\<close>

fun check_name_loop :: "environment \<Rightarrow> nat list \<Rightarrow> result" where
  "check_name_loop env [] = Ok env"
| "check_name_loop env (i # ids) =
     (case browse env i of
        None \<Rightarrow> Raise MissingError env
      | Some one \<Rightarrow>
          if \<not> truthy (compute_label env one)
          then Raise (FieldDoesNotExist (py_str (name one))) env
          else if search_count env (export_id one) (name one) > 1
          then Raise (FieldAlreadyExists (py_str (name one))) env
          else check_name_loop env ids)"

text \<open>\<^verbatim>\<open>_check_name\<close>; \<open>skip_check\<close> is \<^verbatim>\<open>self._context.get("skip_check")\<close>.\<close>

definition check_name :: "bool \<Rightarrow> environment \<Rightarrow> nat list \<Rightarrow> result" where
  "check_name skip_check env ids = (if skip_check then Ok env else check_name_loop env ids)"

section \<open>Inverse derivation of the selectors\<close>

text \<open>
  \<^verbatim>\<open>one.with_context(skip_check=True)[one.field_n(num, True)] = v\<close>: the write of a
  selector, after which the framework runs the constraint on the written record in the
  context of the write. While the inverse of \<^verbatim>\<open>name\<close> runs, the framework does not
  recompute \<^verbatim>\<open>name\<close> on the record.
\<close>

definition assign_field ::
  "bool \<Rightarrow> environment \<Rightarrow> nat \<Rightarrow> nat \<Rightarrow> ir_model_fields option \<Rightarrow> result" where
  "assign_field skip_check env i num v =
     check_name skip_check (write_line env i (set_field_n num v)) [i]"

text \<open>The loop \<^verbatim>\<open>for num in range(1, 5)\<close> of \<^verbatim>\<open>_inverse_name\<close>, on the record \<open>i\<close>.\<close>

fun inverse_fields :: "environment \<Rightarrow> nat \<Rightarrow> string list \<Rightarrow> nat list \<Rightarrow> result" where
  "inverse_fields env i parts [] = Ok env"
| "inverse_fields env i parts (num # nums) =
     (case browse env i of
        None \<Rightarrow> Raise MissingError env
      | Some one \<Rightarrow>
          if \<not> any_part parts \<or> num > length parts
          then (case assign_field True env i num None of
                  Ok env' \<Rightarrow> inverse_fields env' i parts nums
                | Raise e env' \<Rightarrow> Raise e env')
          else (let field_name = parts ! (num - 1);
                    mdl = model_n env one num
                in case get_field_id env mdl field_name of
                     Inl e \<Rightarrow> Raise e env
                   | Inr field \<Rightarrow>
                       (case assign_field True env i num (Some field) of
                          Ok env' \<Rightarrow> inverse_fields env' i parts nums
                        | Raise e env' \<Rightarrow> Raise e env')))"

text \<open>The body of \<^verbatim>\<open>_inverse_name\<close> for one record, in a context with \<open>skip_check\<close>.\<close>

definition inverse_name_one :: "bool \<Rightarrow> environment \<Rightarrow> nat \<Rightarrow> result" where
  "inverse_name_one skip_check env i =
     (case browse env i of
        None \<Rightarrow> Raise MissingError env
      | Some one \<Rightarrow>
          (let parts = str_split CHR ''/'' (or_empty (name one))
           in if length parts > 4
              then Raise (DepthExceeded (py_str (name one))) env
              else (case inverse_fields env i parts [1, 2, 3, 4] of
                      Raise e env' \<Rightarrow> Raise e env'
                    | Ok env' \<Rightarrow>
                        if any_part parts then check_name skip_check env' [i]
                        else Ok env')))"

text \<open>\<^verbatim>\<open>_inverse_name\<close>: \<^verbatim>\<open>for one in self\<close>.\<close>

fun inverse_name :: "bool \<Rightarrow> environment \<Rightarrow> nat list \<Rightarrow> result" where
  "inverse_name skip_check env [] = Ok env"
| "inverse_name skip_check env (i # ids) =
     (case inverse_name_one skip_check env i of
        Raise e env' \<Rightarrow> Raise e env'
      | Ok env' \<Rightarrow> inverse_name skip_check env' ids)"

text \<open>
  Setting \<^verbatim>\<open>name\<close> on records (\<^verbatim>\<open>records.write({"name": v})\<close>): the framework stores
  the value on each record and then calls the inverse on them.
\<close>

definition write_name :: "bool \<Rightarrow> environment \<Rightarrow> nat list \<Rightarrow> string option \<Rightarrow> result" where
  "write_name skip_check env ids v =
     inverse_name skip_check (foldl (\<lambda>e i. write_line e i (\<lambda>l. l\<lparr>name := v\<rparr>)) env ids) ids"

section \<open>The specification's reading of the derivations\<close>

text \<open>
  The specification's forward derivation: collect the technical names of
  \<^verbatim>\<open>field1_id\<close> ... \<^verbatim>\<open>field4_id\<close> while they are set, stop at the first unset one,
  and join with "/".
\<close>

definition spec_name :: "ir_exports_line \<Rightarrow> string" where
  "spec_name one =
     str_join ''/''
       (map (\<lambda>f. fld_name (the f))
            (takeWhile (\<lambda>f. f \<noteq> None)
               [field1_id one, field2_id one, field3_id one, field4_id one]))"

text \<open>The selectors have no gap: no set selector follows an unset one.\<close>

definition no_gap :: "ir_exports_line \<Rightarrow> bool" where
  "no_gap one =
     ((field2_id one = None \<or> field1_id one \<noteq> None) \<and>
      (field3_id one = None \<or> field2_id one \<noteq> None) \<and>
      (field4_id one = None \<or> field3_id one \<noteq> None))"

text \<open>
  The specification's label: the levels up to the first unset field, the description of
  each of them looked up on its model; unset when a lookup fails, when there is no level
  or when the name is empty; otherwise the descriptions joined by "/" and the name in
  parentheses.
\<close>

definition spec_chain :: "ir_exports_line \<Rightarrow> nat list" where
  "spec_chain one = takeWhile (\<lambda>num. field_n one num \<noteq> None) [1, 2, 3, 4]"

definition spec_descriptions :: "environment \<Rightarrow> ir_exports_line \<Rightarrow> string option list" where
  "spec_descriptions env one =
     map (\<lambda>num. description_string env (model_n env one num) (fld_name (the (field_n one num))))
         (spec_chain one)"

definition spec_label :: "environment \<Rightarrow> ir_exports_line \<Rightarrow> string option" where
  "spec_label env one =
     (let descs = spec_descriptions env one
      in if None \<in> set descs then None
         else if descs = [] \<or> or_empty (name one) = [] then None
         else Some (str_join ''/'' (map the descs) @ '' ('' @ or_empty (name one) @ '')''))"

text \<open>The segment the field resolution looks up: ".id" stands for "id".\<close>

definition id_alias :: "string \<Rightarrow> string" where
  "id_alias seg = (if seg = ''.id'' then ''id'' else seg)"

text \<open>The four selectors of a line unset, the rest of the line kept.\<close>

definition unset_fields :: "ir_exports_line \<Rightarrow> ir_exports_line" where
  "unset_fields one =
     one\<lparr>field1_id := None, field2_id := None, field3_id := None, field4_id := None\<rparr>"

section \<open>Uniqueness of names\<close>




section \<open>A small catalogue\<close>

text \<open>
  Two models, partners and countries. The partner field \<open>legacy\<close> has a record in
  \<^verbatim>\<open>ir.model.fields\<close> but is not in the registry of live fields.
\<close>

definition res_partner :: ir_model where
  "res_partner = \<lparr>mdl_id = 1, model = ''res.partner''\<rparr>"

definition res_country :: ir_model where
  "res_country = \<lparr>mdl_id = 2, model = ''res.country''\<rparr>"

definition partner_id_fld :: ir_model_fields where
  "partner_id_fld =
     \<lparr>fld_id = 10, fld_name = ''id'', model_id = 1, ttype = ''integer'', relation = None\<rparr>"

definition partner_name :: ir_model_fields where
  "partner_name =
     \<lparr>fld_id = 11, fld_name = ''name'', model_id = 1, ttype = ''char'', relation = None\<rparr>"

definition partner_country :: ir_model_fields where
  "partner_country =
     \<lparr>fld_id = 12, fld_name = ''country_id'', model_id = 1, ttype = ''many2one'',
      relation = Some ''res.country''\<rparr>"

definition partner_legacy :: ir_model_fields where
  "partner_legacy =
     \<lparr>fld_id = 13, fld_name = ''legacy'', model_id = 1, ttype = ''char'', relation = None\<rparr>"

definition country_code :: ir_model_fields where
  "country_code =
     \<lparr>fld_id = 20, fld_name = ''code'', model_id = 2, ttype = ''char'', relation = None\<rparr>"

definition demo_registry :: "string \<rightharpoonup> (string \<rightharpoonup> (string \<rightharpoonup> string))" where
  "demo_registry =
     [''res.partner'' \<mapsto>
        [''id'' \<mapsto> [''string'' \<mapsto> ''ID''],
         ''name'' \<mapsto> [''string'' \<mapsto> ''Name''],
         ''country_id'' \<mapsto> [''string'' \<mapsto> ''Country'']],
      ''res.country'' \<mapsto>
        [''code'' \<mapsto> [''string'' \<mapsto> ''Country Code'']]]"

definition demo_env :: "ir_exports_line list \<Rightarrow> environment" where
  "demo_env lines =
     \<lparr>ir_model_table = [res_partner, res_country],
      ir_model_fields_table =
        [partner_id_fld, partner_name, partner_country, partner_legacy, country_code],
      ir_exports_line_table = lines,
      registry = demo_registry\<rparr>"

text \<open>A line of the export 7 of partners, with its id, name and selectors.\<close>

definition demo_line ::
  "nat \<Rightarrow> string option \<Rightarrow> ir_model_fields option \<Rightarrow> ir_model_fields option \<Rightarrow>
   ir_model_fields option \<Rightarrow> ir_model_fields option \<Rightarrow> ir_exports_line" where
  "demo_line i nm f1 f2 f3 f4 =
     \<lparr>line_id = i, export_id = Some 7, name = nm,
      field1_id = f1, field2_id = f2, field3_id = f3, field4_id = f4,
      model1_id = Some res_partner, sequence = 10\<rparr>"

section \<open>Strings and searches: basic facts\<close>

lemma str_split_not_Nil: "str_split sep s \<noteq> []"
  by (induction s) (auto split: list.splits)

lemma str_join_Cons: "ps \<noteq> [] \<Longrightarrow> str_join sep (p # ps) = p @ sep @ str_join sep ps"
  by (cases ps) auto

lemma str_join_split: "str_join [sep] (str_split sep s) = s"
proof (induction s)
  case Nil
  show ?case by simp
next
  case (Cons c cs)
  obtain p ps where sp: "str_split sep cs = p # ps"
    using str_split_not_Nil [of sep cs] by (cases "str_split sep cs") auto
  show ?case
  proof (cases "c = sep")
    case True
    then show ?thesis using Cons.IH sp by (simp add: str_join_Cons)
  next
    case False
    then show ?thesis using Cons.IH sp by (cases ps) auto
  qed
qed

lemma find_SomeD: "find P xs = Some x \<Longrightarrow> x \<in> set xs \<and> P x"
  by (induction xs) (auto split: if_splits)

lemma find_None_iff': "find P xs = None \<longleftrightarrow> (\<forall>x\<in>set xs. \<not> P x)"
  by (induction xs) auto

lemma get_field_id_unfold:
  "get_field_id env mdl seg =
      (case search_fields env (id_alias seg) (map_option mdl_id mdl) of
         None \<Rightarrow> Inl (FieldNotFound (id_alias seg) (py_str (map_option model mdl)))
       | Some field \<Rightarrow> Inr field)"
  unfolding get_field_id_def id_alias_def Let_def by (rule refl)

lemma search_fields_Some:
  "search_fields env n mid = Some f \<Longrightarrow>
     f \<in> set (ir_model_fields_table env) \<and> fld_name f = n \<and> Some (model_id f) = mid"
  unfolding search_fields_def by (drule find_SomeD) simp

lemma search_fields_None:
  "search_fields env n mid = None \<longleftrightarrow>
     (\<forall>f\<in>set (ir_model_fields_table env). \<not> (fld_name f = n \<and> Some (model_id f) = mid))"
  unfolding search_fields_def by (rule find_None_iff')

lemma search_model_Some:
  "search_model env rel = Some m \<Longrightarrow> m \<in> set (ir_model_table env) \<and> Some (model m) = rel"
  unfolding search_model_def by (drule find_SomeD) simp

lemma search_model_found:
  "\<exists>m\<in>set (ir_model_table env). Some (model m) = rel \<Longrightarrow> search_model env rel \<noteq> None"
  unfolding search_model_def by (simp add: find_None_iff')

section \<open>Forward derivation of the name\<close>

lemma compute_name_value:
  "compute_name one =
     one\<lparr>name := Some (str_join ''/''
        (List.map_filter (map_option fld_name)
           [field1_id one, field2_id one, field3_id one, field4_id one]))\<rparr>"
  by (cases "field1_id one"; cases "field2_id one"; cases "field3_id one"; cases "field4_id one")
     (simp_all add: compute_name_def field_n_def List.map_filter_simps Let_def)

lemma spec_name_no_gap:
  "no_gap one \<Longrightarrow>
   spec_name one = str_join ''/''
        (List.map_filter (map_option fld_name)
           [field1_id one, field2_id one, field3_id one, field4_id one])"
  by (cases "field1_id one"; cases "field2_id one"; cases "field3_id one"; cases "field4_id one")
     (simp_all add: spec_name_def no_gap_def List.map_filter_simps)

text \<open>
  Claim C1, as the code has it. \<^verbatim>\<open>_compute_name\<close> filters the four selectors: the
  computed name is the "/"-joined technical names of all the set selectors, in order, and
  nothing else of the line changes. An unset selector is skipped and does not end the
  collection, so a set selector that follows an unset one still contributes. When the
  selectors have no gap, this is the specification's name, collected up to the first
  unset selector.
\<close>

theorem compute_name_joins_set_fields:
  "compute_name one =
     one\<lparr>name := Some (str_join ''/''
        (List.map_filter (map_option fld_name)
           [field1_id one, field2_id one, field3_id one, field4_id one]))\<rparr>
   \<and> (no_gap one \<longrightarrow> name (compute_name one) = Some (spec_name one))"
proof (intro conjI impI)
  show all_set: "compute_name one =
     one\<lparr>name := Some (str_join ''/''
        (List.map_filter (map_option fld_name)
           [field1_id one, field2_id one, field3_id one, field4_id one]))\<rparr>"
    by (cases "field1_id one"; cases "field2_id one"; cases "field3_id one";
        cases "field4_id one")
       (simp_all add: compute_name_def field_n_def List.map_filter_simps Let_def)
  assume "no_gap one"
  then have "spec_name one = str_join ''/''
        (List.map_filter (map_option fld_name)
           [field1_id one, field2_id one, field3_id one, field4_id one])"
    by (rule spec_name_no_gap)
  with all_set show "name (compute_name one) = Some (spec_name one)"
    by simp
qed

text \<open>
  A line without gap, selecting country_id and then code.
\<close>

theorem compute_name_joins_set_fields_witness:
  "no_gap (demo_line 1 None (Some partner_country) (Some country_code) None None)
   \<and> name (compute_name (demo_line 1 None (Some partner_country) (Some country_code) None None))
       = Some ''country_id/code''
   \<and> spec_name (demo_line 1 None (Some partner_country) (Some country_code) None None)
       = ''country_id/code''"
  using compute_name_joins_set_fields
          [of "demo_line 1 None (Some partner_country) (Some country_code) None None"]
  by (simp add: no_gap_def demo_line_def spec_name_def partner_country_def country_code_def)

text \<open>
  Claim C1 as stated fails on a line with a gap: with \<^verbatim>\<open>field1_id\<close> and
  \<^verbatim>\<open>field3_id\<close> set and \<^verbatim>\<open>field2_id\<close> unset, the computed name has both
  technical names, while collecting up to the first unset selector gives the first only.
\<close>

theorem compute_name_skips_gap:
  "name (compute_name (demo_line 1 None (Some partner_country) None (Some country_code) None))
     = Some ''country_id/code''
   \<and> spec_name (demo_line 1 None (Some partner_country) None (Some country_code) None)
     = ''country_id''"
  by (simp add: compute_name_def field_n_def demo_line_def spec_name_def
        partner_country_def country_code_def)

section \<open>Field resolution\<close>

text \<open>
  Claim C4. \<^verbatim>\<open>_get_field_id\<close> on a model and a segment: the segment ".id" is looked up
  as "id"; a returned record is a record of the field table with the looked-up technical
  name on that model, and one is returned whenever the table has such a record; when it
  has none, the validation error raised is the one whose message names the looked-up field
  and the model's technical name. The search runs under \<^verbatim>\<open>sudo()\<close>: it sees the
  whole table.
\<close>

theorem get_field_id_resolves:
  "get_field_id env (Some m) ''.id'' = get_field_id env (Some m) ''id''
   \<and> (\<forall>f. get_field_id env (Some m) seg = Inr f \<longrightarrow>
          f \<in> set (ir_model_fields_table env) \<and> fld_name f = id_alias seg
          \<and> model_id f = mdl_id m)
   \<and> ((\<exists>f\<in>set (ir_model_fields_table env). fld_name f = id_alias seg \<and> model_id f = mdl_id m)
        \<longrightarrow> (\<exists>f. get_field_id env (Some m) seg = Inr f))
   \<and> ((\<forall>f\<in>set (ir_model_fields_table env). \<not> (fld_name f = id_alias seg \<and> model_id f = mdl_id m))
        \<longrightarrow> get_field_id env (Some m) seg = Inl (FieldNotFound (id_alias seg) (model m))
            \<and> message (FieldNotFound (id_alias seg) (model m))
                = ''Field '' @ [CHR 0x27] @ id_alias seg @ [CHR 0x27] @ '' not found in model ''
                  @ [CHR 0x27] @ model m @ [CHR 0x27])"
proof -
  have a: "get_field_id env (Some m) ''.id'' = get_field_id env (Some m) ''id''"
  proof -
    have "id_alias ''.id'' = id_alias ''id''"
      by (simp add: id_alias_def)
    then show ?thesis
      by (simp only: get_field_id_unfold)
  qed
  show ?thesis
  proof (cases "search_fields env (id_alias seg) (Some (mdl_id m))")
    case None
    then have r: "get_field_id env (Some m) seg = Inl (FieldNotFound (id_alias seg) (model m))"
      by (simp add: get_field_id_unfold py_str_def)
    have n: "\<forall>f\<in>set (ir_model_fields_table env).
               \<not> (fld_name f = id_alias seg \<and> model_id f = mdl_id m)"
      using None by (simp add: search_fields_None)
    show ?thesis using a r n by simp
  next
    case (Some f)
    then have r: "get_field_id env (Some m) seg = Inr f"
      by (simp add: get_field_id_unfold)
    have p: "f \<in> set (ir_model_fields_table env) \<and> fld_name f = id_alias seg
             \<and> model_id f = mdl_id m"
      using search_fields_Some [OF Some] by simp
    show ?thesis using a r p by auto
  qed
qed

text \<open>
  On the partner model ".id" resolves to the field "id", and "code", a field of countries,
  is not found.
\<close>

theorem get_field_id_resolves_witness:
  "get_field_id (demo_env []) (Some res_partner) ''.id'' = Inr partner_id_fld
   \<and> get_field_id (demo_env []) (Some res_partner) ''code''
       = Inl (FieldNotFound ''code'' ''res.partner'')"
proof -
  have none: "\<forall>f\<in>set (ir_model_fields_table (demo_env [])).
      \<not> (fld_name f = id_alias ''code'' \<and> model_id f = mdl_id res_partner)"
    by (simp add: demo_env_def id_alias_def res_partner_def partner_id_fld_def
          partner_name_def partner_country_def partner_legacy_def country_code_def)
  have some: "get_field_id (demo_env []) (Some res_partner) ''id'' = Inr partner_id_fld"
    by (simp add: get_field_id_def search_fields_def demo_env_def res_partner_def
          partner_id_fld_def)
  note inst = get_field_id_resolves [of "demo_env []" res_partner "''code''"]
  have a: "get_field_id (demo_env []) (Some res_partner) ''.id''
           = get_field_id (demo_env []) (Some res_partner) ''id''"
    using inst by (rule conjunct1)
  have "get_field_id (demo_env []) (Some res_partner) ''code''
          = Inl (FieldNotFound (id_alias ''code'') (model res_partner))"
    using inst [THEN conjunct2, THEN conjunct2, THEN conjunct2] none by blast
  then have b: "get_field_id (demo_env []) (Some res_partner) ''code''
          = Inl (FieldNotFound ''code'' ''res.partner'')"
    by (simp add: id_alias_def res_partner_def)
  show ?thesis using a some b by simp
qed

section \<open>Dependent models\<close>

lemma related_model_cases:
  assumes "r = (case fo of None \<Rightarrow> None
                | Some f \<Rightarrow> if ttype f \<noteq> [] \<and> CHR ''2'' \<in> set (ttype f)
                            then search_model env (relation f) else None)"
  shows "(fo = None \<longrightarrow> r = None)
   \<and> (\<forall>f. fo = Some f \<and> CHR ''2'' \<notin> set (ttype f) \<longrightarrow> r = None)
   \<and> (\<forall>f. fo = Some f \<and> CHR ''2'' \<in> set (ttype f) \<longrightarrow>
        (\<forall>m. r = Some m \<longrightarrow> m \<in> set (ir_model_table env) \<and> Some (model m) = relation f)
        \<and> ((\<exists>m\<in>set (ir_model_table env). Some (model m) = relation f) \<longrightarrow> r \<noteq> None))"
proof (cases fo)
  case None
  then show ?thesis using assms by simp
next
  case (Some f)
  show ?thesis
  proof (cases "CHR ''2'' \<in> set (ttype f)")
    case True
    then have ne: "ttype f \<noteq> []" by auto
    have r: "r = search_model env (relation f)"
      using assms Some True ne by simp
    show ?thesis
      using Some True r search_model_Some [of env "relation f"]
        search_model_found [of env "relation f"]
      by auto
  next
    case False
    then show ?thesis using assms Some by simp
  qed
qed

text \<open>
  Claim C8. For \<^verbatim>\<open>model2_id\<close> from \<^verbatim>\<open>field1_id\<close>, and in the same way for
  \<^verbatim>\<open>model3_id\<close> from \<^verbatim>\<open>field2_id\<close> and \<^verbatim>\<open>model4_id\<close> from \<^verbatim>\<open>field3_id\<close>: when
  the field is unset or its type tag has no "2" (it is not relational), the model is
  unset; when the field is set and relational, the model, if set, is a record of the model
  table whose technical name is the field's relation target, and it is set whenever the
  table has such a record. The search runs under \<^verbatim>\<open>sudo()\<close>: it sees the whole table.
\<close>

theorem dependent_models:
  "((field1_id one = None \<longrightarrow> compute_model2_id env one = None)
   \<and> (\<forall>f. field1_id one = Some f \<and> CHR ''2'' \<notin> set (ttype f) \<longrightarrow>
            compute_model2_id env one = None)
   \<and> (\<forall>f. field1_id one = Some f \<and> CHR ''2'' \<in> set (ttype f) \<longrightarrow>
        (\<forall>m. compute_model2_id env one = Some m \<longrightarrow>
               m \<in> set (ir_model_table env) \<and> Some (model m) = relation f)
        \<and> ((\<exists>m\<in>set (ir_model_table env). Some (model m) = relation f) \<longrightarrow>
               compute_model2_id env one \<noteq> None)))
   \<and> ((field2_id one = None \<longrightarrow> compute_model3_id env one = None)
   \<and> (\<forall>f. field2_id one = Some f \<and> CHR ''2'' \<notin> set (ttype f) \<longrightarrow>
            compute_model3_id env one = None)
   \<and> (\<forall>f. field2_id one = Some f \<and> CHR ''2'' \<in> set (ttype f) \<longrightarrow>
        (\<forall>m. compute_model3_id env one = Some m \<longrightarrow>
               m \<in> set (ir_model_table env) \<and> Some (model m) = relation f)
        \<and> ((\<exists>m\<in>set (ir_model_table env). Some (model m) = relation f) \<longrightarrow>
               compute_model3_id env one \<noteq> None)))
   \<and> ((field3_id one = None \<longrightarrow> compute_model4_id env one = None)
   \<and> (\<forall>f. field3_id one = Some f \<and> CHR ''2'' \<notin> set (ttype f) \<longrightarrow>
            compute_model4_id env one = None)
   \<and> (\<forall>f. field3_id one = Some f \<and> CHR ''2'' \<in> set (ttype f) \<longrightarrow>
        (\<forall>m. compute_model4_id env one = Some m \<longrightarrow>
               m \<in> set (ir_model_table env) \<and> Some (model m) = relation f)
        \<and> ((\<exists>m\<in>set (ir_model_table env). Some (model m) = relation f) \<longrightarrow>
               compute_model4_id env one \<noteq> None)))"
  by (intro conjI related_model_cases [THEN conjunct1]
        related_model_cases [THEN conjunct2, THEN conjunct1]
        related_model_cases [THEN conjunct2, THEN conjunct2])
     (simp_all only: compute_model2_id_def compute_model3_id_def compute_model4_id_def)

text \<open>
  A line that selects the many2one field country_id and then the char field code: the second
  model is the country model, the third and the fourth are unset.
\<close>

theorem dependent_models_witness:
  "compute_model2_id (demo_env [])
      (demo_line 1 None (Some partner_country) (Some country_code) None None) = Some res_country
   \<and> compute_model3_id (demo_env [])
      (demo_line 1 None (Some partner_country) (Some country_code) None None) = None
   \<and> compute_model4_id (demo_env [])
      (demo_line 1 None (Some partner_country) (Some country_code) None None) = None"
proof -
  let ?one = "demo_line 1 None (Some partner_country) (Some country_code) None None"
  note inst = dependent_models [of ?one "demo_env []"]
  note c2 = inst [THEN conjunct1, THEN conjunct2, THEN conjunct2, rule_format, of partner_country]
  note b3 = inst [THEN conjunct2, THEN conjunct1, THEN conjunct2, THEN conjunct1, rule_format,
                  of country_code]
  note a4 = inst [THEN conjunct2, THEN conjunct2, THEN conjunct1, rule_format]
  have f1: "field1_id ?one = Some partner_country \<and> CHR ''2'' \<in> set (ttype partner_country)"
    by (simp add: demo_line_def partner_country_def)
  have f2: "field2_id ?one = Some country_code \<and> CHR ''2'' \<notin> set (ttype country_code)"
    by (simp add: demo_line_def country_code_def)
  have f3: "field3_id ?one = None"
    by (simp add: demo_line_def)
  have tbl: "set (ir_model_table (demo_env [])) = {res_partner, res_country}"
    by (simp add: demo_env_def)
  have rel: "relation partner_country = Some ''res.country''"
    by (simp add: partner_country_def)
  have nm: "model res_country = ''res.country''" "model res_partner = ''res.partner''"
    by (simp_all add: res_country_def res_partner_def)
  have ex: "\<exists>m\<in>set (ir_model_table (demo_env [])). Some (model m) = relation partner_country"
    unfolding tbl rel using nm by simp
  have ne: "compute_model2_id (demo_env []) ?one \<noteq> None"
    using c2 [OF f1] ex by simp
  then obtain m where m: "compute_model2_id (demo_env []) ?one = Some m"
    by (cases "compute_model2_id (demo_env []) ?one") simp_all
  have "m \<in> set (ir_model_table (demo_env [])) \<and> Some (model m) = relation partner_country"
    using c2 [OF f1] m by simp
  then have "m = res_country"
    unfolding tbl rel using nm by auto
  with m have a: "compute_model2_id (demo_env []) ?one = Some res_country"
    by simp
  have b: "compute_model3_id (demo_env []) ?one = None"
    using b3 [OF f2] .
  have c: "compute_model4_id (demo_env []) ?one = None"
    using a4 [OF f3] .
  show ?thesis using a b c by (intro conjI)
qed

section \<open>The label\<close>

lemma label_parts_eq:
  "label_parts env one nums acc =
     (let ds = map (\<lambda>num. description_string env (model_n env one num)
                              (fld_name (the (field_n one num))))
                   (takeWhile (\<lambda>num. field_n one num \<noteq> None) nums)
      in if None \<in> set ds then [] else acc @ map the ds)"
proof (induction nums arbitrary: acc)
  case Nil
  show ?case by simp
next
  case (Cons num nums)
  show ?case
  proof (cases "field_n one num")
    case None
    then show ?thesis by simp
  next
    case (Some field)
    show ?thesis
    proof (cases "description_string env (model_n env one num) (fld_name field)")
      case None
      with Some show ?thesis by simp
    next
      case (Some s)
      with \<open>field_n one num = Some field\<close> Cons.IH [of "acc @ [s]"] show ?thesis
        by (simp add: Let_def)
    qed
  qed
qed

lemma label_parts_spec:
  "label_parts env one [1, 2, 3, 4] [] =
     (if None \<in> set (spec_descriptions env one) then []
      else map the (spec_descriptions env one))"
  unfolding spec_descriptions_def spec_chain_def
  by (simp only: label_parts_eq Let_def append_Nil)

lemma truthy_or_empty: "truthy v \<longleftrightarrow> or_empty v \<noteq> []"
  by (cases v) (simp_all add: truthy_def or_empty_def)

lemma compute_label_undescribed:
  "None \<in> set (spec_descriptions env one) \<Longrightarrow> compute_label env one = None"
  unfolding compute_label_def label_parts_spec by simp

text \<open>
  Claim C5. The label \<^verbatim>\<open>_compute_label\<close> computes is the specification's: the levels are
  walked up to the first unset field, each contributes the description looked up on its
  model, a failed lookup leaves the label unset, and otherwise the label is the
  descriptions joined by "/" followed by the name in parentheses, unset when there is no
  part or the name is empty.
\<close>

theorem compute_label_is_spec_label:
  "compute_label env one = spec_label env one"
proof (cases "None \<in> set (spec_descriptions env one)")
  case True
  then have "label_parts env one [1, 2, 3, 4] [] = []"
    by (simp only: label_parts_spec if_True)
  then have "compute_label env one = None"
    unfolding compute_label_def by simp
  with True show ?thesis
    by (simp add: spec_label_def)
next
  case False
  then have parts: "label_parts env one [1, 2, 3, 4] [] = map the (spec_descriptions env one)"
    by (simp only: label_parts_spec if_False)
  show ?thesis
    unfolding compute_label_def spec_label_def parts Let_def
    using False by (simp add: truthy_or_empty)
qed

lemmas demo_defs =
  demo_env_def demo_line_def demo_registry_def res_partner_def res_country_def
  partner_id_fld_def partner_name_def partner_country_def partner_legacy_def country_code_def


text \<open>
  The label of the path country_id/code of a partner export, and the unset label of a field
  whose record exists but that the registry does not describe.
\<close>

theorem compute_label_is_spec_label_witness:
  "compute_label (demo_env [])
      (demo_line 1 (Some ''country_id/code'') (Some partner_country) (Some country_code) None None)
     = Some ''Country/Country Code (country_id/code)''
   \<and> compute_label (demo_env [])
      (demo_line 1 (Some ''legacy'') (Some partner_legacy) None None None) = None"
proof -
  let ?a = "demo_line 1 (Some ''country_id/code'') (Some partner_country) (Some country_code)
              None None"
  let ?b = "demo_line 1 (Some ''legacy'') (Some partner_legacy) None None None"
  have da: "spec_descriptions (demo_env []) ?a = [Some ''Country'', Some ''Country Code'']"
    by (simp add: spec_descriptions_def spec_chain_def field_n_def model_n_def
          compute_model2_id_def search_model_def description_string_def demo_defs)
  have db: "spec_descriptions (demo_env []) ?b = [None]"
    by (simp add: spec_descriptions_def spec_chain_def field_n_def model_n_def
          description_string_def demo_defs)
  have a: "spec_label (demo_env []) ?a = Some ''Country/Country Code (country_id/code)''"
    unfolding spec_label_def da by (simp add: or_empty_def demo_line_def)
  have b: "spec_label (demo_env []) ?b = None"
    unfolding spec_label_def db by simp
  show ?thesis
    using a b
    by (simp only: compute_label_is_spec_label [of "demo_env []"])
qed

section \<open>Inverse derivation: clearing and the depth check\<close>

lemma write_line_tables [simp]:
  "ir_model_table (write_line env i upd) = ir_model_table env"
  "ir_model_fields_table (write_line env i upd) = ir_model_fields_table env"
  "registry (write_line env i upd) = registry env"
  by (simp_all add: write_line_def)

lemma find_map_upd:
  assumes "\<And>l. line_id (upd l) = line_id l"
  shows "find (\<lambda>l. line_id l = j) (map (\<lambda>l. if line_id l = i then upd l else l) xs)
         = (if j = i then map_option upd (find (\<lambda>l. line_id l = j) xs)
            else find (\<lambda>l. line_id l = j) xs)"
  using assms by (induction xs) auto

lemma browse_write_line:
  assumes "\<And>l. line_id (upd l) = line_id l"
  shows "browse (write_line env i upd) j
         = (if j = i then map_option upd (browse env j) else browse env j)"
  unfolding browse_def write_line_def using find_map_upd [OF assms] by simp

lemma write_line_twice:
  assumes "\<And>l. line_id (f l) = line_id l"
  shows "write_line (write_line env i f) i g = write_line env i (g \<circ> f)"
  using assms by (simp add: write_line_def)

lemma set_field_n_keeps [simp]:
  "line_id (set_field_n n v one) = line_id one"
  "name (set_field_n n v one) = name one"
  "export_id (set_field_n n v one) = export_id one"
  "model1_id (set_field_n n v one) = model1_id one"
  by (simp_all add: set_field_n_def)

lemma field_n_set_field_n:
  "field_n (set_field_n n v one) k
     = (if k = n \<and> n \<in> {1, 2, 3, 4} then v else field_n one k)"
  by (auto simp: set_field_n_def field_n_def)

lemma check_name_loop_keeps:
  "check_name_loop env ids = Ok env' \<Longrightarrow> env' = env"
  by (induction ids) (auto split: option.splits if_splits)

lemma check_name_loop_raises:
  "check_name_loop env ids = Raise e env' \<Longrightarrow>
     env' = env \<and> (\<forall>x. e \<noteq> DepthExceeded x) \<and> (\<forall>x y. e \<noteq> FieldNotFound x y)"
  by (induction ids) (auto split: option.splits if_splits)

lemma check_name_keeps:
  "check_name skip_check env ids = Ok env' \<Longrightarrow> env' = env"
  by (auto simp: check_name_def dest: check_name_loop_keeps split: if_splits)

lemma check_name_raises:
  "check_name skip_check env ids = Raise e env' \<Longrightarrow>
     env' = env \<and> (\<forall>x. e \<noteq> DepthExceeded x) \<and> (\<forall>x y. e \<noteq> FieldNotFound x y)"
  by (auto simp: check_name_def dest: check_name_loop_raises split: if_splits)

lemma assign_field_skip:
  "assign_field True env i num v = Ok (write_line env i (set_field_n num v))"
  by (simp add: assign_field_def check_name_def)

lemma get_field_id_error:
  "get_field_id env mdl seg = Inl e \<Longrightarrow> \<exists>x y. e = FieldNotFound x y"
  by (auto simp: get_field_id_unfold split: option.splits)

lemma get_field_id_name:
  "get_field_id env mdl seg = Inr f \<Longrightarrow> fld_name f = id_alias seg"
  by (auto simp: get_field_id_unfold split: option.splits dest: search_fields_Some)

lemma inverse_fields_step:
  "inverse_fields env i parts (num # nums) =
     (case browse env i of
        None \<Rightarrow> Raise MissingError env
      | Some one \<Rightarrow>
          if \<not> any_part parts \<or> num > length parts
          then inverse_fields (write_line env i (set_field_n num None)) i parts nums
          else (case get_field_id env (model_n env one num) (parts ! (num - 1)) of
                  Inl e \<Rightarrow> Raise e env
                | Inr field \<Rightarrow>
                    inverse_fields (write_line env i (set_field_n num (Some field))) i parts nums))"
  by (simp add: assign_field_skip Let_def split: option.split sum.split)

declare inverse_fields.simps(2) [simp del]

lemma inverse_fields_no_depth_error:
  "inverse_fields env i parts nums \<noteq> Raise (DepthExceeded x) env'"
proof (induction nums arbitrary: env)
  case Nil
  show ?case by simp
next
  case (Cons num nums)
  show ?case
    unfolding inverse_fields_step
    using Cons.IH
    by (auto split: option.split sum.split dest: get_field_id_error)
qed


lemma inverse_fields_clear:
  assumes "\<not> any_part parts" "browse env i \<noteq> None"
  shows "inverse_fields env i parts nums
         = Ok (foldl (\<lambda>e n. write_line e i (set_field_n n None)) env nums)"
  using assms(2)
proof (induction nums arbitrary: env)
  case Nil
  show ?case by simp
next
  case (Cons num nums)
  from Cons.prems obtain one where one: "browse env i = Some one"
    by auto
  have "browse (write_line env i (set_field_n num None)) i \<noteq> None"
    using one by (simp add: browse_write_line)
  from Cons.IH [OF this] one assms(1) show ?case
    by (simp add: inverse_fields_step)
qed

lemma unset_fields_comp:
  "set_field_n 4 None \<circ> (set_field_n 3 None \<circ> (set_field_n 2 None \<circ> set_field_n (Suc 0) None))
     = unset_fields"
  by (rule ext) (simp add: set_field_n_def unset_fields_def)

lemma clear_all_fields:
  "foldl (\<lambda>e n. write_line e i (set_field_n n None)) env [1, 2, 3, 4]
     = write_line env i unset_fields"
  by (simp add: write_line_twice unset_fields_comp)

lemma unset_fields_keeps [simp]:
  "line_id (unset_fields one) = line_id one"
  "name (unset_fields one) = name one"
  "export_id (unset_fields one) = export_id one"
  "field_n (unset_fields one) n = None"
  by (simp_all add: unset_fields_def field_n_def)

lemma split_empty_name:
  "\<not> truthy v \<Longrightarrow> str_split sep (or_empty v) = [[]]"
  by (cases v) (simp_all add: truthy_def or_empty_def)

lemma compute_label_no_field1:
  "field_n one 1 = None \<Longrightarrow> compute_label env one = None"
  by (simp add: compute_label_def)

text \<open>
  Claim C10. On a line whose name is empty or unset, the inverse returns without error in
  any context: it leaves the table with the four selectors of the line unset, each written
  with the constraint suppressed, and does not run the final validation. Had the
  validation run on the cleared line it would have raised, since a line without selectors
  has no label.
\<close>

theorem clearing_is_silent:
  assumes "browse env i = Some one" and "\<not> truthy (name one)"
  shows "inverse_name_one skip_check env i = Ok (write_line env i unset_fields)
         \<and> browse (write_line env i unset_fields) i = Some (unset_fields one)
         \<and> check_name False (write_line env i unset_fields) [i]
             = Raise (FieldDoesNotExist (py_str (name one))) (write_line env i unset_fields)"
proof -
  have parts: "str_split CHR ''/'' (or_empty (name one)) = [[]]"
    using assms(2) by (rule split_empty_name)
  have none: "\<not> any_part [[]]"
    by (simp add: any_part_def)
  have loop: "inverse_fields env i [[]] [1, 2, 3, 4] = Ok (write_line env i unset_fields)"
    using inverse_fields_clear [OF none, of env i "[1, 2, 3, 4]"] assms(1)
    by (simp only: clear_all_fields) simp
  have a: "inverse_name_one skip_check env i = Ok (write_line env i unset_fields)"
    unfolding inverse_name_one_def using assms(1) parts loop none
    by (simp add: Let_def)
  have b: "browse (write_line env i unset_fields) i = Some (unset_fields one)"
    using assms(1) by (simp add: browse_write_line)
  have "compute_label (write_line env i unset_fields) (unset_fields one) = None"
    by (rule compute_label_no_field1) simp
  then have c: "check_name False (write_line env i unset_fields) [i]
             = Raise (FieldDoesNotExist (py_str (name one))) (write_line env i unset_fields)"
    using b by (simp add: check_name_def truthy_def)
  show ?thesis using a b c by (intro conjI)
qed

text \<open>
  Claim C3. On a line named \<open>s\<close>: when the split of \<open>s\<close> has five segments or more,
  the inverse raises the depth error for \<open>s\<close> before anything is written, whatever
  the catalogue holds; when it has four segments or fewer (four is the boundary), the
  inverse never raises a depth error.
\<close>

theorem depth_check:
  assumes "browse env i = Some one" and "name one = Some s"
  shows "(5 \<le> length (str_split CHR ''/'' s) \<longrightarrow>
            inverse_name_one skip_check env i = Raise (DepthExceeded s) env)
         \<and> (length (str_split CHR ''/'' s) \<le> 4 \<longrightarrow>
            (\<forall>x env'. inverse_name_one skip_check env i \<noteq> Raise (DepthExceeded x) env'))"
proof (intro conjI impI allI)
  assume "5 \<le> length (str_split CHR ''/'' s)"
  with assms show "inverse_name_one skip_check env i = Raise (DepthExceeded s) env"
    by (simp add: inverse_name_one_def or_empty_def py_str_def Let_def)
next
  fix x env'
  assume le: "length (str_split CHR ''/'' s) \<le> 4"
  show "inverse_name_one skip_check env i \<noteq> Raise (DepthExceeded x) env'"
  proof (cases "inverse_fields env i (str_split CHR ''/'' s) [1, 2, 3, 4]")
    case (Ok env1)
    have "check_name skip_check env1 [i] \<noteq> Raise (DepthExceeded x) env'"
      using check_name_raises [of skip_check env1 "[i]" "DepthExceeded x" env'] by auto
    with Ok assms le show ?thesis
      by (simp add: inverse_name_one_def or_empty_def Let_def)
  next
    case (Raise e env1)
    with inverse_fields_no_depth_error have "e \<noteq> DepthExceeded x"
      by auto
    with Raise assms le show ?thesis
      by (simp add: inverse_name_one_def or_empty_def Let_def)
  qed
qed

text \<open>
  Setting the empty name on a line that selected country_id/code.
\<close>

theorem clearing_is_silent_witness:
  "inverse_name_one False
      (demo_env [demo_line 1 (Some []) (Some partner_country) (Some country_code) None None]) 1
     = Ok (demo_env [demo_line 1 (Some []) None None None None])
   \<and> check_name False (demo_env [demo_line 1 (Some []) None None None None]) [1]
     = Raise (FieldDoesNotExist []) (demo_env [demo_line 1 (Some []) None None None None])"
proof -
  let ?one = "demo_line 1 (Some []) (Some partner_country) (Some country_code) None None"
  have h1: "browse (demo_env [?one]) 1 = Some ?one"
    by (simp add: browse_def demo_env_def demo_line_def)
  have h2: "\<not> truthy (name ?one)"
    by (simp add: truthy_def demo_line_def)
  have w: "write_line (demo_env [?one]) 1 unset_fields
           = demo_env [demo_line 1 (Some []) None None None None]"
    by (simp add: write_line_def unset_fields_def demo_env_def demo_line_def)
  have n: "py_str (name ?one) = []"
    by (simp add: py_str_def demo_line_def)
  from clearing_is_silent [OF h1 h2, of False] show ?thesis
    unfolding w n by simp
qed

text \<open>
  A name of five segments, the first two of them valid, and a name of four segments that
  name no field: the first raises the depth error, the second another error.
\<close>

theorem depth_check_witness:
  "inverse_name_one False
      (demo_env [demo_line 1 (Some ''country_id/code/a/b/c'') None None None None]) 1
     = Raise (DepthExceeded ''country_id/code/a/b/c'')
         (demo_env [demo_line 1 (Some ''country_id/code/a/b/c'') None None None None])
   \<and> inverse_name_one False
      (demo_env [demo_line 1 (Some ''a/b/c/d'') None None None None]) 1
     \<noteq> Raise (DepthExceeded ''a/b/c/d'')
         (demo_env [demo_line 1 (Some ''a/b/c/d'') None None None None])"
proof -
  let ?l5 = "demo_line 1 (Some ''country_id/code/a/b/c'') None None None None"
  let ?l4 = "demo_line 1 (Some ''a/b/c/d'') None None None None"
  have b5: "browse (demo_env [?l5]) 1 = Some ?l5"
    by (simp add: browse_def demo_env_def demo_line_def)
  have n5: "name ?l5 = Some ''country_id/code/a/b/c''"
    by (simp add: demo_line_def)
  have s5: "5 \<le> length (str_split CHR ''/'' ''country_id/code/a/b/c'')"
    by simp
  have b4: "browse (demo_env [?l4]) 1 = Some ?l4"
    by (simp add: browse_def demo_env_def demo_line_def)
  have n4: "name ?l4 = Some ''a/b/c/d''"
    by (simp add: demo_line_def)
  have s4: "length (str_split CHR ''/'' ''a/b/c/d'') \<le> 4"
    by simp
  from depth_check [OF b5 n5, of False] s5
  have a: "inverse_name_one False (demo_env [?l5]) 1
             = Raise (DepthExceeded ''country_id/code/a/b/c'') (demo_env [?l5])"
    by blast
  from depth_check [OF b4 n4, of False] s4
  have b: "inverse_name_one False (demo_env [?l4]) 1
             \<noteq> Raise (DepthExceeded ''a/b/c/d'') (demo_env [?l4])"
    by blast
  show ?thesis using a b by (intro conjI)
qed

section \<open>Inverse derivation: the selectors it leaves\<close>

lemma inverse_fields_Ok:
  assumes "inverse_fields env i parts nums = Ok env'"
    and "browse env i = Some one"
    and "distinct nums"
    and "set nums \<subseteq> {1, 2, 3, 4}"
  shows "\<exists>one'. browse env' i = Some one' \<and> name one' = name one
           \<and> (\<forall>n. n \<notin> set nums \<longrightarrow> field_n one' n = field_n one n)
           \<and> (\<forall>n\<in>set nums.
                 if \<not> any_part parts \<or> n > length parts then field_n one' n = None
                 else \<exists>f. field_n one' n = Some f \<and> fld_name f = id_alias (parts ! (n - 1)))"
  using assms
proof (induction nums arbitrary: env one)
  case Nil
  then show ?case by simp
next
  case (Cons num nums)
  have num: "num \<in> {1, 2, 3, 4}" "num \<notin> set nums" "distinct nums" "set nums \<subseteq> {1, 2, 3, 4}"
    using Cons.prems(3,4) by auto
  show ?case
  proof (cases "\<not> any_part parts \<or> num > length parts")
    case True
    let ?env1 = "write_line env i (set_field_n num None)"
    let ?one1 = "set_field_n num None one"
    have run: "inverse_fields ?env1 i parts nums = Ok env'"
      using Cons.prems(1,2) True by (simp add: inverse_fields_step)
    have br: "browse ?env1 i = Some ?one1"
      using Cons.prems(2) by (simp add: browse_write_line)
    from Cons.IH [OF run br num(3,4)] obtain one' where
      o: "browse env' i = Some one'" "name one' = name ?one1"
         "\<forall>n. n \<notin> set nums \<longrightarrow> field_n one' n = field_n ?one1 n"
         "\<forall>n\<in>set nums.
             if \<not> any_part parts \<or> n > length parts then field_n one' n = None
             else \<exists>f. field_n one' n = Some f \<and> fld_name f = id_alias (parts ! (n - 1))"
      by blast
    have here: "field_n one' num = None"
      using o(3) num(1,2) by (simp add: field_n_set_field_n)
    have other: "\<forall>n. n \<notin> set (num # nums) \<longrightarrow> field_n one' n = field_n one n"
      using o(3) by (simp add: field_n_set_field_n)
    show ?thesis
      using o(1,2,4) here other True by auto
  next
    case False
    from Cons.prems(1,2) False obtain field where
      g: "get_field_id env (model_n env one num) (parts ! (num - 1)) = Inr field"
      by (cases "get_field_id env (model_n env one num) (parts ! (num - 1))")
         (simp_all add: inverse_fields_step)
    let ?env1 = "write_line env i (set_field_n num (Some field))"
    let ?one1 = "set_field_n num (Some field) one"
    have run: "inverse_fields ?env1 i parts nums = Ok env'"
      using Cons.prems(1,2) False g by (simp add: inverse_fields_step)
    have br: "browse ?env1 i = Some ?one1"
      using Cons.prems(2) by (simp add: browse_write_line)
    from Cons.IH [OF run br num(3,4)] obtain one' where
      o: "browse env' i = Some one'" "name one' = name ?one1"
         "\<forall>n. n \<notin> set nums \<longrightarrow> field_n one' n = field_n ?one1 n"
         "\<forall>n\<in>set nums.
             if \<not> any_part parts \<or> n > length parts then field_n one' n = None
             else \<exists>f. field_n one' n = Some f \<and> fld_name f = id_alias (parts ! (n - 1))"
      by blast
    have here: "field_n one' num = Some field \<and> fld_name field = id_alias (parts ! (num - 1))"
      using o(3) num(1,2) get_field_id_name [OF g] by (simp add: field_n_set_field_n)
    have other: "\<forall>n. n \<notin> set (num # nums) \<longrightarrow> field_n one' n = field_n one n"
      using o(3) by (simp add: field_n_set_field_n)
    show ?thesis
      using o(1,2,4) here other False by auto
  qed
qed

lemma short_list_cases:
  assumes "parts \<noteq> []" and "length parts \<le> 4"
  obtains a where "parts = [a]"
  | a b where "parts = [a, b]"
  | a b c where "parts = [a, b, c]"
  | a b c d where "parts = [a, b, c, d]"
proof -
  from assms(1) obtain a r1 where p1: "parts = a # r1"
    by (cases parts) auto
  show thesis
  proof (cases r1)
    case Nil
    with p1 that(1) show ?thesis by simp
  next
    case (Cons b r2)
    note p2 = this
    show ?thesis
    proof (cases r2)
      case Nil
      with p1 p2 that(2) show ?thesis by simp
    next
      case (Cons c r3)
      note p3 = this
      show ?thesis
      proof (cases r3)
        case Nil
        with p1 p2 p3 that(3) show ?thesis by simp
      next
        case (Cons d r4)
        with p1 p2 p3 assms(2) have "r4 = []" by simp
        with p1 p2 p3 Cons that(4) show ?thesis by simp
      qed
    qed
  qed
qed

lemma compute_name_of_chain:
  assumes "parts \<noteq> []" and "length parts \<le> 4"
    and "\<forall>n\<in>{1, 2, 3, 4}.
           if n > length parts then field_n one n = None
           else \<exists>f. field_n one n = Some f \<and> fld_name f = g (parts ! (n - 1))"
  shows "name (compute_name one) = Some (str_join ''/'' (map g parts))"
proof -
  have f1: "if 1 > length parts then field1_id one = None
            else \<exists>f. field1_id one = Some f \<and> fld_name f = g (parts ! 0)"
    using assms(3) [rule_format, of 1] by (auto simp: field_n_def split: if_splits)
  have f2: "if 2 > length parts then field2_id one = None
            else \<exists>f. field2_id one = Some f \<and> fld_name f = g (parts ! 1)"
    using assms(3) [rule_format, of 2] by (auto simp: field_n_def split: if_splits)
  have f3: "if 3 > length parts then field3_id one = None
            else \<exists>f. field3_id one = Some f \<and> fld_name f = g (parts ! 2)"
    using assms(3) [rule_format, of 3] by (auto simp: field_n_def split: if_splits)
  have f4: "if 4 > length parts then field4_id one = None
            else \<exists>f. field4_id one = Some f \<and> fld_name f = g (parts ! 3)"
    using assms(3) [rule_format, of 4] by (auto simp: field_n_def split: if_splits)
  from assms(1,2) show ?thesis
  proof (cases parts rule: short_list_cases)
    case (1 a)
    with f1 f2 f3 f4 show ?thesis
      by (auto simp: compute_name_value List.map_filter_simps)
  next
    case (2 a b)
    with f1 f2 f3 f4 show ?thesis
      by (auto simp: compute_name_value List.map_filter_simps)
  next
    case (3 a b c)
    with f1 f2 f3 f4 show ?thesis
      by (auto simp: compute_name_value List.map_filter_simps)
  next
    case (4 a b c d)
    with f1 f2 f3 f4 show ?thesis
      by (auto simp: compute_name_value List.map_filter_simps)
  qed
qed

lemma compute_name_no_fields:
  assumes "\<forall>n\<in>{1, 2, 3, 4}. field_n one n = None"
  shows "name (compute_name one) = Some []"
proof -
  have "field1_id one = None" "field2_id one = None" "field3_id one = None"
    "field4_id one = None"
    using assms by (simp_all add: field_n_def)
  then show ?thesis
    by (simp add: compute_name_value List.map_filter_simps)
qed

lemma inverse_name_one_Ok:
  assumes "browse env i = Some one"
    and "inverse_name_one skip_check env i = Ok env'"
  shows "length (str_split CHR ''/'' (or_empty (name one))) \<le> 4
         \<and> inverse_fields env i (str_split CHR ''/'' (or_empty (name one))) [1, 2, 3, 4] = Ok env'"
proof -
  let ?parts = "str_split CHR ''/'' (or_empty (name one))"
  have le: "length ?parts \<le> 4"
    using assms by (auto simp: inverse_name_one_def Let_def split: if_splits)
  show ?thesis
  proof (cases "inverse_fields env i ?parts [1, 2, 3, 4]")
    case (Ok env1)
    with assms le have "env' = env1"
      by (auto simp: inverse_name_one_def Let_def split: if_splits dest: check_name_keeps)
    with Ok le show ?thesis by simp
  next
    case (Raise e env1)
    with assms le show ?thesis
      by (simp add: inverse_name_one_def Let_def)
  qed
qed

text \<open>
  Claim C2, as the code has it. When the inverse accepts the name \<open>s\<close> of a line, the
  name recomputed from the selectors it leaves is the "/"-join of the segments of \<open>s\<close>
  with every segment ".id" replaced by "id", provided \<open>s\<close> has a non-empty segment, and
  is the empty string otherwise (the selectors are then all unset). So the recomputed name
  is \<open>s\<close> itself whenever \<open>s\<close> has a non-empty segment and no segment ".id".
\<close>

theorem round_trip:
  assumes "browse env i = Some one" and "name one = Some s"
    and "inverse_name_one skip_check env i = Ok env'"
  shows "\<exists>one'. browse env' i = Some one'
           \<and> name (compute_name one')
               = Some (if any_part (str_split CHR ''/'' s)
                       then str_join ''/'' (map id_alias (str_split CHR ''/'' s)) else [])
           \<and> (any_part (str_split CHR ''/'' s) \<and> ''.id'' \<notin> set (str_split CHR ''/'' s)
                \<longrightarrow> name (compute_name one') = Some s)"
proof -
  let ?parts = "str_split CHR ''/'' s"
  have s: "or_empty (name one) = s"
    using assms(2) by (simp add: or_empty_def)
  from inverse_name_one_Ok [OF assms(1,3)]
  have le: "length ?parts \<le> 4" and run: "inverse_fields env i ?parts [1, 2, 3, 4] = Ok env'"
    unfolding s by simp_all
  from inverse_fields_Ok [OF run assms(1)] obtain one' where
    o: "browse env' i = Some one'"
       "\<forall>n\<in>{1, 2, 3, 4}.
           if \<not> any_part ?parts \<or> n > length ?parts then field_n one' n = None
           else \<exists>f. field_n one' n = Some f \<and> fld_name f = id_alias (?parts ! (n - 1))"
    by auto
  have nm: "name (compute_name one')
              = Some (if any_part ?parts then str_join ''/'' (map id_alias ?parts) else [])"
  proof (cases "any_part ?parts")
    case True
    with o(2) have "\<forall>n\<in>{1, 2, 3, 4}.
           if n > length ?parts then field_n one' n = None
           else \<exists>f. field_n one' n = Some f \<and> fld_name f = id_alias (?parts ! (n - 1))"
      by simp
    from compute_name_of_chain [OF str_split_not_Nil le this] True show ?thesis
      by simp
  next
    case False
    with o(2) have "\<forall>n\<in>{1, 2, 3, 4}. field_n one' n = None"
      by simp
    from compute_name_no_fields [OF this] False show ?thesis
      by simp
  qed
  have same: "name (compute_name one') = Some s"
    if "any_part ?parts" and "''.id'' \<notin> set ?parts"
  proof -
    have "map id_alias ?parts = ?parts"
      using that(2) by (intro map_idI) (auto simp: id_alias_def)
    with nm that(1) str_join_split [of "CHR ''/''" s] show ?thesis
      by simp
  qed
  show ?thesis using o(1) nm same by blast
qed

lemmas run_defs =
  write_name_def inverse_name_one_def inverse_fields_step browse_def write_line_def
  check_name_def or_empty_def py_str_def truthy_def any_part_def set_field_n_def model_n_def
  field_n_def get_field_id_def search_fields_def search_model_def search_count_def
  compute_model2_id_def compute_model3_id_def compute_model4_id_def
  compute_label_def description_string_def Let_def

text \<open>
  The path country_id/code of a partner export is accepted and reads back unchanged.
\<close>

theorem round_trip_witness:
  "inverse_name_one False
      (demo_env [demo_line 1 (Some ''country_id/code'') None None None None]) 1
     = Ok (demo_env [demo_line 1 (Some ''country_id/code'')
                       (Some partner_country) (Some country_code) None None])
   \<and> name (compute_name (demo_line 1 (Some ''country_id/code'')
                       (Some partner_country) (Some country_code) None None))
     = Some ''country_id/code''"
proof -
  let ?one = "demo_line 1 (Some ''country_id/code'') None None None None"
  let ?one' = "demo_line 1 (Some ''country_id/code'')
                 (Some partner_country) (Some country_code) None None"
  have h1: "browse (demo_env [?one]) 1 = Some ?one"
    by (simp add: browse_def demo_env_def demo_line_def)
  have h2: "name ?one = Some ''country_id/code''"
    by (simp add: demo_line_def)
  have h3: "inverse_name_one False (demo_env [?one]) 1 = Ok (demo_env [?one'])"
    by (simp add: run_defs demo_defs)
  have b: "browse (demo_env [?one']) 1 = Some ?one'"
    by (simp add: browse_def demo_env_def demo_line_def)
  have p: "any_part (str_split CHR ''/'' ''country_id/code'')
           \<and> ''.id'' \<notin> set (str_split CHR ''/'' ''country_id/code'')"
    by (simp add: any_part_def)
  from round_trip [OF h1 h2 h3] b p
  have "name (compute_name ?one') = Some ''country_id/code''"
    by auto
  with h3 show ?thesis by (intro conjI)
qed

text \<open>
  Claim C2 as stated fails on the path ".id": setting it on a fresh line of a partner
  export is accepted without error, \<^verbatim>\<open>field1_id\<close> becomes the field "id", and the name
  recomputed from the selectors is "id".
\<close>

theorem round_trip_dot_id:
  "write_name False (demo_env [demo_line 1 None None None None None]) [1] (Some ''.id'')
     = Ok (demo_env [demo_line 1 (Some ''.id'') (Some partner_id_fld) None None None])
   \<and> browse (demo_env [demo_line 1 (Some ''.id'') (Some partner_id_fld) None None None]) 1
     = Some (demo_line 1 (Some ''.id'') (Some partner_id_fld) None None None)
   \<and> name (compute_name (demo_line 1 (Some ''.id'') (Some partner_id_fld) None None None))
     = Some ''id''
   \<and> ''id'' \<noteq> ''.id''"
  by (simp add: run_defs demo_defs compute_name_value List.map_filter_simps)

section \<open>The constraint\<close>

lemma chain_member:
  assumes "k \<in> {1, 2, 3, 4}" and "\<forall>j. 1 \<le> j \<and> j < k \<longrightarrow> field_n one j \<noteq> None"
    and "field_n one k \<noteq> None"
  shows "k \<in> set (spec_chain one)"
proof -
  have lower: "field_n one j \<noteq> None" if "1 \<le> j" "j \<le> k" for j
    using that assms(2,3) by (cases "j = k") auto
  from assms(1) consider "k = 1" | "k = 2" | "k = 3" | "k = 4"
    by auto
  then show ?thesis
  proof cases
    case 1
    with lower [of 1] show ?thesis by (simp add: spec_chain_def)
  next
    case 2
    with lower [of 1] lower [of 2] show ?thesis by (simp add: spec_chain_def)
  next
    case 3
    with lower [of 1] lower [of 2] lower [of 3] show ?thesis by (simp add: spec_chain_def)
  next
    case 4
    with lower [of 1] lower [of 2] lower [of 3] lower [of 4] show ?thesis
      by (simp add: spec_chain_def)
  qed
qed

lemma undescribed_chain_no_label:
  assumes "k \<in> {1, 2, 3, 4}" and "\<forall>j. 1 \<le> j \<and> j < k \<longrightarrow> field_n one j \<noteq> None"
    and "field_n one k = Some f"
    and "description_string env (model_n env one k) (fld_name f) = None"
  shows "compute_label env one = None"
proof -
  have "k \<in> set (spec_chain one)"
    using assms(1,2,3) by (intro chain_member) auto
  then have "description_string env (model_n env one k) (fld_name (the (field_n one k)))
               \<in> set (spec_descriptions env one)"
    unfolding spec_descriptions_def set_map by (rule imageI)
  with assms(3,4) have "None \<in> set (spec_descriptions env one)"
    by simp
  then show ?thesis
    by (rule compute_label_undescribed)
qed

lemma check_name_first:
  assumes "browse env i = Some one"
  shows "check_name False env (i # ids) =
     (if \<not> truthy (compute_label env one)
      then Raise (FieldDoesNotExist (py_str (name one))) env
      else if 1 < search_count env (export_id one) (name one)
      then Raise (FieldAlreadyExists (py_str (name one))) env
      else check_name False env ids)"
  using assms by (simp add: check_name_def)

text \<open>
  Claim C6. The constraint, run in a context without \<^verbatim>\<open>skip_check\<close> (with the flag
  \<^verbatim>\<open>_check_name\<close> returns at once and checks nothing), on records of which the first is
  the line \<open>one\<close>: when the label of the line is unset the check raises the error "Field
  '...' does not exist" with the name of the line. This is so in particular when the
  selectors up to some level are set and the description lookup of that level fails,
  whether or not the field records are records of the catalogue. On the line alone, the
  check raises that error exactly when the label is unset.
\<close>

theorem check_name_label_unset:
  assumes "browse env i = Some one"
  shows "(\<not> truthy (compute_label env one) \<longrightarrow>
            check_name False env (i # ids)
              = Raise (FieldDoesNotExist (py_str (name one))) env)
         \<and> (\<forall>k f. k \<in> {1, 2, 3, 4}
                \<and> (\<forall>j. 1 \<le> j \<and> j < k \<longrightarrow> field_n one j \<noteq> None)
                \<and> field_n one k = Some f
                \<and> description_string env (model_n env one k) (fld_name f) = None
              \<longrightarrow> check_name False env (i # ids)
                    = Raise (FieldDoesNotExist (py_str (name one))) env)
         \<and> ((\<exists>x. check_name False env [i] = Raise (FieldDoesNotExist x) env)
              \<longleftrightarrow> \<not> truthy (compute_label env one))"
proof (intro conjI allI impI)
  assume "\<not> truthy (compute_label env one)"
  then show "check_name False env (i # ids) = Raise (FieldDoesNotExist (py_str (name one))) env"
    by (simp add: check_name_first [OF assms])
next
  fix k f
  assume a: "k \<in> {1, 2, 3, 4}
      \<and> (\<forall>j. 1 \<le> j \<and> j < k \<longrightarrow> field_n one j \<noteq> None)
      \<and> field_n one k = Some f
      \<and> description_string env (model_n env one k) (fld_name f) = None"
  then have "compute_label env one = None"
    using undescribed_chain_no_label [of k one f env] by blast
  then show "check_name False env (i # ids) = Raise (FieldDoesNotExist (py_str (name one))) env"
    by (simp add: check_name_first [OF assms] truthy_def)
next
  show "(\<exists>x. check_name False env [i] = Raise (FieldDoesNotExist x) env)
          \<longleftrightarrow> \<not> truthy (compute_label env one)"
    by (simp add: check_name_first [OF assms]) (simp add: check_name_def)
qed



text \<open>
  The partner field \<open>legacy\<close> resolves in the catalogue, but the registry has no
  description for it: the check of a line that selects it raises "does not exist".
\<close>

theorem check_name_label_unset_witness:
  "get_field_id (demo_env []) (Some res_partner) ''legacy'' = Inr partner_legacy
   \<and> check_name False
        (demo_env [demo_line 1 (Some ''legacy'') (Some partner_legacy) None None None]) [1]
     = Raise (FieldDoesNotExist ''legacy'')
        (demo_env [demo_line 1 (Some ''legacy'') (Some partner_legacy) None None None])"
proof -
  let ?one = "demo_line 1 (Some ''legacy'') (Some partner_legacy) None None None"
  let ?env = "demo_env [?one]"
  have r: "get_field_id (demo_env []) (Some res_partner) ''legacy'' = Inr partner_legacy"
    by (simp add: get_field_id_def search_fields_def demo_defs)
  have h: "browse ?env 1 = Some ?one"
    by (simp add: browse_def demo_env_def demo_line_def)
  have k: "(1::nat) \<in> {1, 2, 3, 4}
      \<and> (\<forall>j. 1 \<le> j \<and> j < (1::nat) \<longrightarrow> field_n ?one j \<noteq> None)
      \<and> field_n ?one 1 = Some partner_legacy
      \<and> description_string ?env (model_n ?env ?one 1) (fld_name partner_legacy) = None"
    by (simp add: field_n_def model_n_def description_string_def demo_defs)
  have n: "py_str (name ?one) = ''legacy''"
    by (simp add: py_str_def demo_line_def)
  note inst = check_name_label_unset [OF h, of "[]", THEN conjunct2, THEN conjunct1, rule_format,
      of 1 partner_legacy]
  from inst [OF k] have "check_name False ?env [1] = Raise (FieldDoesNotExist ''legacy'') ?env"
    unfolding n .
  with r show ?thesis by (intro conjI)
qed


section \<open>Atomicity of the depth error\<close>

lemma write_name_single:
  "write_name skip_check env [i] v =
     (case inverse_name_one skip_check (write_line env i (\<lambda>l. l\<lparr>name := v\<rparr>)) i of
        Raise e env' \<Rightarrow> Raise e env'
      | Ok env' \<Rightarrow> Ok env')"
  by (simp add: write_name_def split: result.split)

lemma field_n_name_update:
  "field_n (l\<lparr>name := v\<rparr>) n = field_n l n"
  by (simp add: field_n_def)

lemma inverse_name_one_depth_error:
  assumes "inverse_name_one skip_check env i = Raise (DepthExceeded x) env'"
  shows "env' = env"
proof (cases "browse env i")
  case None
  with assms show ?thesis by (simp add: inverse_name_one_def)
next
  case (Some one)
  let ?parts = "str_split CHR ''/'' (or_empty (name one))"
  show ?thesis
  proof (cases "4 < length ?parts")
    case True
    with assms Some show ?thesis
      by (simp add: inverse_name_one_def Let_def)
  next
    case False
    show ?thesis
    proof (cases "inverse_fields env i ?parts [1, 2, 3, 4]")
      case (Ok env1)
      with assms Some False have "check_name skip_check env1 [i] = Raise (DepthExceeded x) env'"
        by (simp add: inverse_name_one_def Let_def split: if_splits)
      from check_name_raises [OF this] show ?thesis by simp
    next
      case (Raise e env1)
      with assms Some False have "e = DepthExceeded x" "env1 = env'"
        by (simp_all add: inverse_name_one_def Let_def)
      with Raise inverse_fields_no_depth_error show ?thesis by simp
    qed
  qed
qed

text \<open>
  Claim C9. When the inverse raises the depth error on a line, the environment is the one
  it started from: nothing has been written. When setting the name of a line raises the
  depth error, the environment differs from the initial one by the stored name of that
  line only: every selector of every line reads as before.
\<close>

theorem depth_error_is_atomic:
  "(inverse_name_one skip_check env i = Raise (DepthExceeded x) env' \<longrightarrow> env' = env)
   \<and> (write_name skip_check env [i] v = Raise (DepthExceeded x) env' \<longrightarrow>
        env' = write_line env i (\<lambda>l. l\<lparr>name := v\<rparr>)
        \<and> (\<forall>j n. map_option (\<lambda>l. field_n l n) (browse env' j)
                  = map_option (\<lambda>l. field_n l n) (browse env j)))"
proof (intro conjI impI)
  assume "inverse_name_one skip_check env i = Raise (DepthExceeded x) env'"
  then show "env' = env" by (rule inverse_name_one_depth_error)
next
  assume w: "write_name skip_check env [i] v = Raise (DepthExceeded x) env'"
  let ?env1 = "write_line env i (\<lambda>l. l\<lparr>name := v\<rparr>)"
  from w have "inverse_name_one skip_check ?env1 i = Raise (DepthExceeded x) env'"
    by (simp add: write_name_single split: result.splits)
  then show e: "env' = ?env1" by (rule inverse_name_one_depth_error)
  show "\<forall>j n. map_option (\<lambda>l. field_n l n) (browse env' j)
                  = map_option (\<lambda>l. field_n l n) (browse env j)"
    unfolding e by (simp add: browse_write_line option.map_comp comp_def field_n_name_update)
qed

text \<open>
  Setting a five-segment name on a line that selects the partner name: the depth error, and
  the selector is still set.
\<close>

theorem depth_error_is_atomic_witness:
  "write_name False
      (demo_env [demo_line 1 (Some ''name'') (Some partner_name) None None None]) [1]
      (Some ''a/b/c/d/e'')
     = Raise (DepthExceeded ''a/b/c/d/e'')
         (demo_env [demo_line 1 (Some ''a/b/c/d/e'') (Some partner_name) None None None])"
proof -
  let ?env = "demo_env [demo_line 1 (Some ''name'') (Some partner_name) None None None]"
  have "\<exists>env'. write_name False ?env [1] (Some ''a/b/c/d/e'')
           = Raise (DepthExceeded ''a/b/c/d/e'') env'"
    by (simp add: write_name_single inverse_name_one_def browse_def write_line_def
          demo_env_def demo_line_def or_empty_def py_str_def)
  then obtain env' where r: "write_name False ?env [1] (Some ''a/b/c/d/e'')
      = Raise (DepthExceeded ''a/b/c/d/e'') env'"
    by blast
  from depth_error_is_atomic [of False ?env 1 "''a/b/c/d/e''" env' "Some ''a/b/c/d/e''",
      THEN conjunct2, rule_format, OF r, THEN conjunct1]
  have "env' = demo_env [demo_line 1 (Some ''a/b/c/d/e'') (Some partner_name) None None None]"
    by (simp add: write_line_def demo_env_def demo_line_def)
  with r show ?thesis by simp
qed

section \<open>Uniqueness of names under writes of the name\<close>























end
